theory Spec2Isabelle
  imports Complex_Main
begin

section \<open>Values, errors and the stores\<close>

text \<open>
  The development embeds \<^verbatim>\<open>src/js/component.js\<close> (class Component) and the Button
  class. JavaScript objects live in stores indexed by references; every function of the
  source that mutates an object takes the state and returns the new one; every throw of
  the source is the value \<open>Inl TypeError\<close>.
\<close>

type_synonym ref = nat
type_synonym eref = nat

datatype error = TypeError | OutOfFuel | Unsupported

definition bindE :: "error + 'a \<Rightarrow> ('a \<Rightarrow> error + 'b) \<Rightarrow> error + 'b" where
  "bindE m f = (case m of Inl e \<Rightarrow> Inl e | Inr x \<Rightarrow> f x)"

fun foldE :: "('a \<Rightarrow> 's \<Rightarrow> error + 's) \<Rightarrow> 'a list \<Rightarrow> 's \<Rightarrow> error + 's" where
  "foldE f [] s = Inr s"
| "foldE f (x # xs) s = (case f x s of Inl e \<Rightarrow> Inl e | Inr s' \<Rightarrow> foldE f xs s')"

text \<open>Configuration values: the JSON-like values an options object is made of.\<close>

datatype jsv =
    JUndefined
  | JNull
  | JBool bool
  | JNum int
  | JStr string
  | JEl eref
  | JArr "jsv list"
  | JObj "(string \<times> jsv) list"

fun jget :: "jsv \<Rightarrow> string \<Rightarrow> jsv" where
  "jget (JObj kvs) k = (case map_of kvs k of None \<Rightarrow> JUndefined | Some v \<Rightarrow> v)"
| "jget v k = JUndefined"

fun truthy :: "jsv \<Rightarrow> bool" where
  "truthy JUndefined = False"
| "truthy JNull = False"
| "truthy (JBool b) = b"
| "truthy (JNum n) = (n \<noteq> 0)"
| "truthy (JStr s) = (s \<noteq> [])"
| "truthy (JEl e) = True"
| "truthy (JArr xs) = True"
| "truthy (JObj kvs) = True"

fun upd :: "string \<Rightarrow> jsv \<Rightarrow> (string \<times> jsv) list \<Rightarrow> (string \<times> jsv) list" where
  "upd k v [] = [(k, v)]"
| "upd k v ((k', v') # kvs) = (if k = k' then (k, v) # kvs else (k', v') # upd k v kvs)"

text \<open>
  Modelled from the spec: \<^verbatim>\<open>utils/merge-options.js\<close> is not among the sources. The spec
  says it "deep-merges configuration objects, plain-object values recurse, all other types
  overwrite". An object is read through \<open>map_of\<close>, so the first entry of a key is the
  property: \<open>seen\<close> holds the keys of the source already merged, and a later entry of a
  key in it is no property of the source.
\<close>

fun merge_into :: "(string \<times> jsv) list \<Rightarrow> string list \<Rightarrow> (string \<times> jsv) list \<Rightarrow> (string \<times> jsv) list" where
  "merge_into tgt seen [] = tgt"
| "merge_into tgt seen ((k, v) # rest) =
     (if k \<in> set seen then merge_into tgt seen rest
      else merge_into
             (upd k (case v of
                       JObj y \<Rightarrow>
                         (case map_of tgt k of
                            Some (JObj x) \<Rightarrow> JObj (merge_into x [] y)
                          | _ \<Rightarrow> JObj (merge_into [] [] y))
                     | _ \<Rightarrow> v) tgt)
             (k # seen) rest)"

fun mergeOptions :: "jsv \<Rightarrow> jsv \<Rightarrow> jsv" where
  "mergeOptions (JObj a) (JObj b) = JObj (merge_into a [] b)"
| "mergeOptions (JObj a) v = JObj a"
| "mergeOptions t v = t"

lemma merge_example:
  "mergeOptions (JObj [(''children'', JObj [(''a'', JObj [(''x'', JNum 1)])])])
                (JObj [(''children'', JObj [(''a'', JObj [(''y'', JNum 2)]), (''b'', JObj [])])])
   = JObj [(''children'', JObj [(''a'', JObj [(''x'', JNum 1), (''y'', JNum 2)]), (''b'', JObj [])])]"
  by simp

text \<open>
  Modelled from the spec: \<^verbatim>\<open>utils/to-title-case.js\<close> is not among the sources; the spec
  calls its result "a title-cased form of the name". The first letter is put in upper
  case (ASCII letters).
\<close>

definition upper_char :: "char \<Rightarrow> char" where
  "upper_char c =
     (case List.find (\<lambda>p. fst p = c) (zip ''abcdefghijklmnopqrstuvwxyz'' ''ABCDEFGHIJKLMNOPQRSTUVWXYZ'') of
        None \<Rightarrow> c | Some p \<Rightarrow> snd p)"

fun toTitleCase :: "string \<Rightarrow> string" where
  "toTitleCase [] = []"
| "toTitleCase (c # cs) = upper_char c # cs"

text \<open>The decimal digits of a number, as the template string of the generated id prints them.\<close>

fun show_nat :: "nat \<Rightarrow> string" where
  "show_nat n = (if n < 10 then [''0123456789'' ! n] else show_nat (n div 10) @ [''0123456789'' ! (n mod 10)])"

declare show_nat.simps [simp del]

subsection \<open>Listeners, elements, objects\<close>

text \<open>
  A listener is what \<^verbatim>\<open>Fn.bind\<close> returns: a function with its receiver and its identity
  token (\<^verbatim>\<open>guid\<close>). A user function is opaque: it is named by a number, that number is
  its identity token, and calling it is recorded in the trace. The closures the source
  builds itself (\<^verbatim>\<open>removeOnDispose\<close>, \<^verbatim>\<open>cleanRemover\<close>, the timers' \<^verbatim>\<open>disposeFn\<close>) are
  constructors carrying the variables they capture.
\<close>

datatype guid = GNum nat | GTimeout nat | GInterval nat

datatype target = TComp ref | TElem eref

datatype hfn =
    UserFn nat
  | RemoveOnDispose target string
  | CleanRemover
  | TimeoutDispose nat
  | IntervalDispose nat

record handler =
  hguid :: guid
  hrecv :: ref
  hfn :: hfn

record elem =
  eid :: string
  parentNode :: "eref option"
  handlers :: "string \<Rightarrow> handler list"

text \<open>
  An object exposes some of the methods of Component; a method that is present is
  Component's own. A Component exposes all of them; a duck-typed stand-in (the source
  accepts them as children and as players) may lack some.
\<close>

datatype meth = M_id | M_name | M_el | M_dispose | M_on | M_off

datatype 'a slot = Undefined | Null | Ref 'a

text \<open>The fields are the source's \<^verbatim>\<open>id_\<close>, \<^verbatim>\<open>name_\<close>, \<^verbatim>\<open>el_\<close>, ..., written \<open>c_id\<close>, \<open>c_name\<close>, \<open>c_el\<close>, ...\<close>

record obj =
  methods :: "meth set"
  c_id :: string
  c_name :: "string option"
  c_el :: "eref option"
  c_contentEl :: "eref option"
  c_children :: "ref list option"
  c_childIndex :: "(string \<Rightarrow> ref slot) option"
  c_childNameIndex :: "(string \<Rightarrow> ref slot) option"
  c_isReady :: bool
  c_readyQueue :: "nat list option"
  c_options :: jsv
  c_player :: "ref option"
  c_named :: "string \<Rightarrow> ref option"

datatype callback = CbUser nat | CbReady

record timer =
  tcb :: callback
  trecv :: ref
  tdelay :: int
  trepeat :: bool

datatype event =
    EvTrigger eref string "bool option"
  | EvCall nat ref
  | EvDispose nat ref

record state =
  objs :: "ref \<Rightarrow> obj"
  elems :: "eref \<Rightarrow> elem"
  timers :: "nat \<Rightarrow> timer option"
  trace :: "event list"
  next_ref :: nat
  next_el :: nat
  next_guid :: nat
  next_timer :: nat

definition log :: "event \<Rightarrow> state \<Rightarrow> state" where
  "log e s = s\<lparr>trace := trace s @ [e]\<rparr>"

definition hs_of :: "state \<Rightarrow> eref \<Rightarrow> string \<Rightarrow> handler list" where
  "hs_of s e t = handlers (elems s e) t"

definition set_hs :: "eref \<Rightarrow> (string \<Rightarrow> handler list) \<Rightarrow> state \<Rightarrow> state" where
  "set_hs e f s = s\<lparr>elems := (elems s)(e := (elems s e)\<lparr>handlers := f\<rparr>)\<rparr>"

definition set_parent :: "eref \<Rightarrow> eref option \<Rightarrow> state \<Rightarrow> state" where
  "set_parent e p s = s\<lparr>elems := (elems s)(e := (elems s e)\<lparr>parentNode := p\<rparr>)\<rparr>"

definition set_obj :: "ref \<Rightarrow> (obj \<Rightarrow> obj) \<Rightarrow> state \<Rightarrow> state" where
  "set_obj r f s = s\<lparr>objs := (objs s)(r := f (objs s r))\<rparr>"

subsection \<open>The event utility\<close>

text \<open>
  Modelled from the spec: \<^verbatim>\<open>utils/events.js\<close> and \<^verbatim>\<open>utils/fn.js\<close> are not among the
  sources. The spec gives "attach/detach/listen-once/dispatch on a platform element" and
  registrations "each tagged with an identity token so it can be matched for removal".
  Attaching appends the listener to the element's list for the type; detaching with a
  listener removes every listener of that type carrying the same token, with a type only
  it empties the type's list, with neither it empties every list; dispatching calls the
  listeners registered for the type, in registration order, from the list as it stood
  when the dispatch began. Without an element each of them throws.
\<close>

definition events_on :: "eref option \<Rightarrow> string \<Rightarrow> handler \<Rightarrow> state \<Rightarrow> error + state" where
  "events_on eo t h s =
     (case eo of
        None \<Rightarrow> Inl TypeError
      | Some e \<Rightarrow> Inr (set_hs e ((handlers (elems s e))(t := hs_of s e t @ [h])) s))"

definition events_off :: "eref option \<Rightarrow> string option \<Rightarrow> guid option \<Rightarrow> state \<Rightarrow> error + state" where
  "events_off eo topt gopt s =
     (case eo of
        None \<Rightarrow> Inl TypeError
      | Some e \<Rightarrow>
          (case topt of
             None \<Rightarrow> Inr (set_hs e (\<lambda>t. []) s)
           | Some t \<Rightarrow>
               (case gopt of
                  None \<Rightarrow> Inr (set_hs e ((handlers (elems s e))(t := [])) s)
                | Some g \<Rightarrow>
                    Inr (set_hs e ((handlers (elems s e))(t := filter (\<lambda>h. hguid h \<noteq> g) (hs_of s e t))) s))))"

subsection \<open>Component: off, on, the timer wrappers\<close>

text \<open>
  \<^verbatim>\<open>off(first, second, third)\<close> looks at the shape of its arguments; the two shapes are
  two functions here. \<open>off_local\<close> is the branch
  \<^verbatim>\<open>!first || typeof first === 'string'\<close>, \<open>off_observed\<close> the other one; the listener
  argument is given by its identity token, which is all \<^verbatim>\<open>Events.off\<close> reads of it.
\<close>

definition off_local :: "ref \<Rightarrow> string option \<Rightarrow> guid option \<Rightarrow> state \<Rightarrow> error + state" where
  "off_local c topt gopt s = events_off (c_el (objs s c)) topt gopt s"

definition off_observed :: "ref \<Rightarrow> target \<Rightarrow> string \<Rightarrow> guid \<Rightarrow> state \<Rightarrow> error + state" where
  "off_observed c tg t g s =
     bindE (off_local c (Some ''dispose'') (Some g) s) (\<lambda>s1.
       case tg of
         TElem e \<Rightarrow>
           bindE (events_off (Some e) (Some t) (Some g) s1) (events_off (Some e) (Some ''dispose'') (Some g))
       | TComp q \<Rightarrow>
           if M_off \<in> methods (objs s1 q)
           then bindE (off_local q (Some t) (Some g) s1) (off_local q (Some ''dispose'') (Some g))
           else Inl TypeError)"

text \<open>
  \<^verbatim>\<open>on(first, second, third)\<close>: \<open>on_local\<close> is the branch for a type and a listener
  (the listener already bound to its receiver), \<open>on_observed\<close> the branch for a target,
  a type and a user function.
\<close>

definition bind_user :: "ref \<Rightarrow> nat \<Rightarrow> handler" where
  "bind_user c n = \<lparr>hguid = GNum n, hrecv = c, hfn = UserFn n\<rparr>"

definition on_local :: "ref \<Rightarrow> string \<Rightarrow> handler \<Rightarrow> state \<Rightarrow> error + state" where
  "on_local c t h s = events_on (c_el (objs s c)) t h s"

definition on_observed :: "ref \<Rightarrow> target \<Rightarrow> string \<Rightarrow> nat \<Rightarrow> state \<Rightarrow> error + state" where
  "on_observed c tg t n s =
     (let fn = bind_user c n;
          removeOnDispose = \<lparr>hguid = hguid fn, hrecv = c, hfn = RemoveOnDispose tg t\<rparr>;
          cleanRemover = \<lparr>hguid = hguid fn, hrecv = c, hfn = CleanRemover\<rparr>
      in bindE (on_local c ''dispose'' removeOnDispose s) (\<lambda>s1.
           case tg of
             TElem e \<Rightarrow>
               bindE (events_on (Some e) t fn s1) (events_on (Some e) ''dispose'' cleanRemover)
           | TComp q \<Rightarrow>
               if M_on \<in> methods (objs s1 q)
               then bindE (on_local q t fn s1) (on_local q ''dispose'' cleanRemover)
               else Inr s1))"

text \<open>
  Modelled from the spec: the platform's timers (\<^verbatim>\<open>global/window\<close>) are not among the
  sources. \<^verbatim>\<open>window.setTimeout\<close> and \<^verbatim>\<open>window.setInterval\<close> enter a callback in the table of
  pending timers under a fresh id and return the id; \<^verbatim>\<open>window.clearTimeout\<close> and
  \<^verbatim>\<open>window.clearInterval\<close> take the entry out.
\<close>

definition window_set :: "timer \<Rightarrow> state \<Rightarrow> nat \<times> state" where
  "window_set t s =
     (next_timer s, s\<lparr>timers := (timers s)(next_timer s := Some t), next_timer := Suc (next_timer s)\<rparr>)"

definition window_clear :: "nat \<Rightarrow> state \<Rightarrow> state" where
  "window_clear i s = s\<lparr>timers := (timers s)(i := None)\<rparr>"

definition setTimeout :: "ref \<Rightarrow> callback \<Rightarrow> int \<Rightarrow> state \<Rightarrow> error + nat \<times> state" where
  "setTimeout c fn timeout s =
     (let (timeoutId, s1) = window_set \<lparr>tcb = fn, trecv = c, tdelay = timeout, trepeat = False\<rparr> s;
          disposeFn = \<lparr>hguid = GTimeout timeoutId, hrecv = c, hfn = TimeoutDispose timeoutId\<rparr>
      in bindE (on_local c ''dispose'' disposeFn s1) (\<lambda>s2. Inr (timeoutId, s2)))"

definition clearTimeout :: "ref \<Rightarrow> nat \<Rightarrow> state \<Rightarrow> error + nat \<times> state" where
  "clearTimeout c timeoutId s =
     bindE (off_local c (Some ''dispose'') (Some (GTimeout timeoutId)) (window_clear timeoutId s))
       (\<lambda>s1. Inr (timeoutId, s1))"

definition setInterval :: "ref \<Rightarrow> callback \<Rightarrow> int \<Rightarrow> state \<Rightarrow> error + nat \<times> state" where
  "setInterval c fn interval s =
     (let (intervalId, s1) = window_set \<lparr>tcb = fn, trecv = c, tdelay = interval, trepeat = True\<rparr> s;
          disposeFn = \<lparr>hguid = GInterval intervalId, hrecv = c, hfn = IntervalDispose intervalId\<rparr>
      in bindE (on_local c ''dispose'' disposeFn s1) (\<lambda>s2. Inr (intervalId, s2)))"

definition clearInterval :: "ref \<Rightarrow> nat \<Rightarrow> state \<Rightarrow> error + nat \<times> state" where
  "clearInterval c intervalId s =
     bindE (off_local c (Some ''dispose'') (Some (GInterval intervalId)) (window_clear intervalId s))
       (\<lambda>s1. Inr (intervalId, s1))"

subsection \<open>Dispatch\<close>

definition run_handler :: "handler \<Rightarrow> state \<Rightarrow> error + state" where
  "run_handler h s =
     (case hfn h of
        UserFn n \<Rightarrow> Inr (log (EvCall n (hrecv h)) s)
      | RemoveOnDispose tg t \<Rightarrow> off_observed (hrecv h) tg t (hguid h) s
      | CleanRemover \<Rightarrow> off_local (hrecv h) (Some ''dispose'') (Some (hguid h)) s
      | TimeoutDispose i \<Rightarrow> bindE (clearTimeout (hrecv h) i s) (\<lambda>r. Inr (snd r))
      | IntervalDispose i \<Rightarrow> bindE (clearInterval (hrecv h) i s) (\<lambda>r. Inr (snd r)))"

definition events_trigger :: "eref option \<Rightarrow> string \<Rightarrow> bool option \<Rightarrow> state \<Rightarrow> error + state" where
  "events_trigger eo t bubbles s =
     (case eo of
        None \<Rightarrow> Inl TypeError
      | Some e \<Rightarrow> foldE run_handler (hs_of s e t) (log (EvTrigger e t bubbles) s))"

definition trigger :: "ref \<Rightarrow> string \<Rightarrow> bool option \<Rightarrow> state \<Rightarrow> error + state" where
  "trigger c t bubbles s = events_trigger (c_el (objs s c)) t bubbles s"

subsection \<open>Component: dispose\<close>

text \<open>
  \<^verbatim>\<open>dispose()\<close>. The recursion into the children need not end on a store with a cycle, so
  the function takes fuel; \<open>d\<close> is the depth of the call, recorded with the call in the
  trace. The loop \<^verbatim>\<open>for (i = length - 1; i >= 0; i--)\<close> is the fold over the reversed
  list of children. What follows the emission of the event is \<open>teardown\<close>.
\<close>

fun dispose :: "nat \<Rightarrow> nat \<Rightarrow> ref \<Rightarrow> state \<Rightarrow> error + state"
  and teardown :: "nat \<Rightarrow> nat \<Rightarrow> ref \<Rightarrow> state \<Rightarrow> error + state" where
  "dispose 0 d c s = Inl OutOfFuel"
| "dispose (Suc n) d c s =
     bindE (trigger c ''dispose'' (Some False) (log (EvDispose d c) s)) (teardown n d c)"
| "teardown n d c s1 =
     bindE (case c_children (objs s1 c) of
              None \<Rightarrow> Inr s1
            | Some cs \<Rightarrow>
                foldE (\<lambda>ch s'. if M_dispose \<in> methods (objs s' ch) then dispose n (Suc d) ch s' else Inr s')
                  (rev cs) s1) (\<lambda>s2.
     bindE (off_local c None None
              (set_obj c (\<lambda>ob. ob\<lparr>c_children := None, c_childIndex := None, c_childNameIndex := None\<rparr>) s2)) (\<lambda>s3.
     case c_el (objs s3 c) of
       None \<Rightarrow> Inl TypeError
     | Some e \<Rightarrow> Inr (set_obj c (\<lambda>ob. ob\<lparr>c_el := None\<rparr>) (set_hs e (\<lambda>t. []) (set_parent e None s3)))))"

subsection \<open>Component: the ready state\<close>

definition ready :: "ref \<Rightarrow> nat option \<Rightarrow> state \<Rightarrow> error + state" where
  "ready c fn s =
     (case fn of
        None \<Rightarrow> Inr s
      | Some f \<Rightarrow>
          if c_isReady (objs s c)
          then bindE (setTimeout c (CbUser f) 1 s) (\<lambda>r. Inr (snd r))
          else Inr (set_obj c (\<lambda>ob. ob\<lparr>c_readyQueue :=
                 Some ((case c_readyQueue ob of None \<Rightarrow> [] | Some q \<Rightarrow> q) @ [f])\<rparr>) s))"

definition triggerReady :: "ref \<Rightarrow> state \<Rightarrow> error + nat \<times> state" where
  "triggerReady c s = setTimeout c CbReady 1 (set_obj c (\<lambda>ob. ob\<lparr>c_isReady := True\<rparr>) s)"

text \<open>The function \<^verbatim>\<open>triggerReady\<close> hands to \<^verbatim>\<open>setTimeout\<close>, run with the component as receiver.\<close>

definition ready_tick :: "ref \<Rightarrow> state \<Rightarrow> error + state" where
  "ready_tick c s =
     trigger c ''ready'' None
       (case c_readyQueue (objs s c) of
          None \<Rightarrow> s
        | Some [] \<Rightarrow> s
        | Some (f # fs) \<Rightarrow>
            set_obj c (\<lambda>ob. ob\<lparr>c_readyQueue := Some []\<rparr>)
              (s\<lparr>trace := trace s @ map (\<lambda>g. EvCall g c) (f # fs)\<rparr>))"

definition run_callback :: "timer \<Rightarrow> state \<Rightarrow> error + state" where
  "run_callback t s =
     (case tcb t of
        CbUser f \<Rightarrow> Inr (log (EvCall f (trecv t)) s)
      | CbReady \<Rightarrow> ready_tick (trecv t) s)"

text \<open>
  Modelled from the spec: a later turn of the event loop on which the platform runs the
  callback of a pending timer. A timeout leaves the table when it fires, an interval
  stays. A timer that is not pending cannot fire: the result is \<open>None\<close>.
\<close>

definition fire :: "nat \<Rightarrow> state \<Rightarrow> (error + state) option" where
  "fire i s =
     (case timers s i of
        None \<Rightarrow> None
      | Some t \<Rightarrow> Some (run_callback t (if trepeat t then s else window_clear i s)))"

subsection \<open>Component: the child table\<close>


definition getChild :: "ref \<Rightarrow> string \<Rightarrow> state \<Rightarrow> error + ref slot" where
  "getChild c k s = (case c_childNameIndex (objs s c) of None \<Rightarrow> Inl TypeError | Some m \<Rightarrow> Inr (m k))"

definition contentEl :: "obj \<Rightarrow> eref option" where
  "contentEl ob = (case c_contentEl ob of Some e \<Rightarrow> Some e | None \<Rightarrow> c_el ob)"

datatype child_arg = ByName string | Instance ref

text \<open>
  The part of \<^verbatim>\<open>addChild\<close> from \<^verbatim>\<open>this.children_.push(component)\<close> on, shared by its two
  branches, one function for each statement; \<open>nm\<close> is \<^verbatim>\<open>componentName\<close> as the branch
  left it (\<open>None\<close> for undefined).
\<close>

definition push_child :: "ref \<Rightarrow> ref \<Rightarrow> state \<Rightarrow> error + state" where
  "push_child p c s =
     (case c_children (objs s p) of
        None \<Rightarrow> Inl TypeError
      | Some cs \<Rightarrow> Inr (set_obj p (\<lambda>ob. ob\<lparr>c_children := Some (cs @ [c])\<rparr>) s))"

definition index_by_id :: "ref \<Rightarrow> ref \<Rightarrow> state \<Rightarrow> error + state" where
  "index_by_id p c s =
     (if M_id \<in> methods (objs s c)
      then (case c_childIndex (objs s p) of
              None \<Rightarrow> Inl TypeError
            | Some m \<Rightarrow> Inr (set_obj p (\<lambda>ob. ob\<lparr>c_childIndex := Some (m(c_id (objs s c) := Ref c))\<rparr>) s))
      else Inr s)"

definition component_name :: "state \<Rightarrow> ref \<Rightarrow> string option \<Rightarrow> string option" where
  "component_name s c nm =
     (if nm \<noteq> None \<and> nm \<noteq> Some [] then nm
      else if M_name \<in> methods (objs s c) then c_name (objs s c) else None)"

definition index_by_name :: "ref \<Rightarrow> ref \<Rightarrow> string option \<Rightarrow> state \<Rightarrow> error + state" where
  "index_by_name p c nm s =
     (case component_name s c nm of
        None \<Rightarrow> Inr s
      | Some k \<Rightarrow>
          if k = [] then Inr s
          else (case c_childNameIndex (objs s p) of
                  None \<Rightarrow> Inl TypeError
                | Some m \<Rightarrow> Inr (set_obj p (\<lambda>ob. ob\<lparr>c_childNameIndex := Some (m(k := Ref c))\<rparr>) s)))"

definition append_el :: "ref \<Rightarrow> ref \<Rightarrow> state \<Rightarrow> error + state" where
  "append_el p c s =
     (if M_el \<in> methods (objs s c)
      then (case c_el (objs s c) of
              None \<Rightarrow> Inr s
            | Some e \<Rightarrow>
                (case contentEl (objs s p) of
                   None \<Rightarrow> Inl TypeError
                 | Some ce \<Rightarrow> Inr (set_parent e (Some ce) s)))
      else Inr s)"

definition attach :: "ref \<Rightarrow> ref \<Rightarrow> string option \<Rightarrow> state \<Rightarrow> error + ref \<times> state" where
  "attach p c nm s =
     bindE (push_child p c s) (\<lambda>s1.
     bindE (index_by_id p c s1) (\<lambda>s2.
     bindE (index_by_name p c nm s2) (\<lambda>s3.
     bindE (append_el p c s3) (\<lambda>s4. Inr (c, s4)))))"

text \<open>
  \<^verbatim>\<open>removeChild\<close>. \<^verbatim>\<open>splice(i, 1)\<close> at the last index holding the component; then the
  statements after \<^verbatim>\<open>if (!childFound) return\<close>, one function for each. The key
  \<^verbatim>\<open>component.name()\<close> of a component without a name is null, which as a property key
  reads \<^verbatim>\<open>"null"\<close>.
\<close>

definition remove_last :: "'a \<Rightarrow> 'a list \<Rightarrow> 'a list" where
  "remove_last x xs = rev (remove1 x (rev xs))"

definition unindex_id :: "ref \<Rightarrow> ref \<Rightarrow> state \<Rightarrow> error + state" where
  "unindex_id p c s =
     (if M_id \<notin> methods (objs s c) then Inl TypeError
      else (case c_childIndex (objs s p) of
              None \<Rightarrow> Inl TypeError
            | Some m \<Rightarrow> Inr (set_obj p (\<lambda>ob. ob\<lparr>c_childIndex := Some (m(c_id (objs s c) := Null))\<rparr>) s)))"

definition name_key :: "string option \<Rightarrow> string" where
  "name_key nm = (case nm of None \<Rightarrow> ''null'' | Some k \<Rightarrow> k)"

definition unindex_name :: "ref \<Rightarrow> ref \<Rightarrow> state \<Rightarrow> error + state" where
  "unindex_name p c s =
     (if M_name \<notin> methods (objs s c) then Inl TypeError
      else (case c_childNameIndex (objs s p) of
              None \<Rightarrow> Inl TypeError
            | Some m \<Rightarrow>
                Inr (set_obj p (\<lambda>ob. ob\<lparr>c_childNameIndex := Some (m(name_key (c_name (objs s c)) := Null))\<rparr>) s)))"

definition detach_el :: "ref \<Rightarrow> ref \<Rightarrow> state \<Rightarrow> error + state" where
  "detach_el p c s =
     (if M_el \<notin> methods (objs s c) then Inl TypeError
      else (case c_el (objs s c) of
              None \<Rightarrow> Inr s
            | Some e \<Rightarrow>
                if parentNode (elems s e) \<noteq> None \<and> parentNode (elems s e) = contentEl (objs s p)
                then Inr (set_parent e None s)
                else Inr s))"

definition remove_found :: "ref \<Rightarrow> ref \<Rightarrow> ref list \<Rightarrow> state \<Rightarrow> error + state" where
  "remove_found p c cs s =
     bindE (unindex_id p c (set_obj p (\<lambda>ob. ob\<lparr>c_children := Some (remove_last c cs)\<rparr>) s)) (\<lambda>s2.
     bindE (unindex_name p c s2) (detach_el p c))"

definition removeChild :: "ref \<Rightarrow> child_arg \<Rightarrow> state \<Rightarrow> error + state" where
  "removeChild p arg s =
     bindE (case arg of ByName k \<Rightarrow> getChild p k s | Instance c \<Rightarrow> Inr (Ref c)) (\<lambda>component.
       case component of
         Undefined \<Rightarrow> Inr s
       | Null \<Rightarrow> Inr s
       | Ref c \<Rightarrow>
           (case c_children (objs s p) of
              None \<Rightarrow> Inr s
            | Some cs \<Rightarrow> if c \<notin> set cs then Inr s else remove_found p c cs s))"

subsection \<open>Component: the registry, the constructor, addChild, initChildren\<close>

text \<open>
  A class is given by the \<^verbatim>\<open>options_\<close> of its prototype (\<open>JUndefined\<close> when it has none);
  its constructor is Component's. \<^verbatim>\<open>Component.components_\<close> and the legacy namespace
  \<^verbatim>\<open>window.videojs\<close> are the two tables of the environment.
\<close>

record env =
  components :: "string \<Rightarrow> jsv option"
  legacy :: "string \<Rightarrow> jsv option"

definition getComponent :: "env \<Rightarrow> string \<Rightarrow> jsv option" where
  "getComponent en name = (case components en name of Some c \<Rightarrow> Some c | None \<Rightarrow> legacy en name)"

text \<open>
  \<^verbatim>\<open>options.id || (options.el && options.el.id)\<close>, and the generated id when that is falsy.
  \<^verbatim>\<open>Guid.newGUID\<close> (not among the sources; the spec: "produces process-unique ids") is a
  counter. An id that is neither falsy nor a string is outside the model.
\<close>

definition resolve_id :: "jsv \<Rightarrow> ref option \<Rightarrow> state \<Rightarrow> error + string \<times> state" where
  "resolve_id options player s =
     (let idv = (if truthy (jget options ''id'') then jget options ''id''
                 else (case jget options ''el'' of
                         JEl e \<Rightarrow> JStr (eid (elems s e))
                       | v \<Rightarrow> if truthy v then jget v ''id'' else v));
          generated =
            (let i = (case player of
                        None \<Rightarrow> ''no_player''
                      | Some pl \<Rightarrow>
                          if M_id \<in> methods (objs s pl) \<and> c_id (objs s pl) \<noteq> []
                          then c_id (objs s pl) else ''no_player'')
             in Inr (i @ ''_component_'' @ show_nat (next_guid s), s\<lparr>next_guid := Suc (next_guid s)\<rparr>))
      in case idv of
           JStr i \<Rightarrow> if i \<noteq> [] then Inr (i, s) else generated
         | v \<Rightarrow> if truthy v then Inl Unsupported else generated)"

text \<open>\<^verbatim>\<open>options.name || null\<close>; a name that is neither falsy nor a string is outside the model.\<close>

definition resolve_name :: "jsv \<Rightarrow> error + string option" where
  "resolve_name options =
     (case jget options ''name'' of
        JStr k \<Rightarrow> Inr (if k \<noteq> [] then Some k else None)
      | v \<Rightarrow> if truthy v then Inl Unsupported else Inr None)"

text \<open>
  \<^verbatim>\<open>options.el\<close> verbatim, else \<^verbatim>\<open>this.createEl()\<close> unless \<^verbatim>\<open>options.createEl === false\<close>.
  \<^verbatim>\<open>Dom.createEl\<close> (not among the sources) allocates a fresh detached element.
\<close>

definition resolve_el :: "jsv \<Rightarrow> state \<Rightarrow> error + eref option \<times> state" where
  "resolve_el options s =
     (case jget options ''el'' of
        JEl e \<Rightarrow> Inr (Some e, s)
      | v \<Rightarrow>
          if truthy v then Inl Unsupported
          else if jget options ''createEl'' \<noteq> JBool False
          then Inr (Some (next_el s),
                 s\<lparr>elems := (elems s)(next_el s := \<lparr>eid = [], parentNode = None, handlers = (\<lambda>t. [])\<rparr>),
                   next_el := Suc (next_el s)\<rparr>)
          else Inr (None, s))"

definition all_methods :: "meth set" where
  "all_methods = {M_id, M_name, M_el, M_dispose, M_on, M_off}"

text \<open>
  The entries the two loops of \<^verbatim>\<open>initChildren\<close> hand to \<^verbatim>\<open>handleAdd\<close>: a name and options.
  Reading \<^verbatim>\<open>child.name\<close> of null or undefined throws.
\<close>

fun array_entry :: "jsv \<Rightarrow> error + jsv \<times> jsv" where
  "array_entry (JStr k) = Inr (JStr k, JObj [])"
| "array_entry JUndefined = Inl TypeError"
| "array_entry JNull = Inl TypeError"
| "array_entry child = Inr (jget child ''name'', child)"

definition object_entries :: "(string \<times> jsv) list \<Rightarrow> (error + jsv \<times> jsv) list" where
  "object_entries kvs = map (\<lambda>k. Inr (JStr k, jget (JObj kvs) k)) (remdups (map fst kvs))"

text \<open>The property key a name is converted to in \<^verbatim>\<open>parentOptions[name]\<close>.\<close>

fun key_of :: "jsv \<Rightarrow> string option" where
  "key_of (JStr k) = Some k"
| "key_of JUndefined = Some ''undefined''"
| "key_of JNull = Some ''null''"
| "key_of (JBool b) = Some (if b then ''true'' else ''false'')"
| "key_of v = None"

text \<open>
  The options \<^verbatim>\<open>handleAdd\<close> goes on with: the parent's top-level entry for the name when
  it is not undefined, else the options of the entry.
\<close>

definition resolved_opts :: "jsv \<Rightarrow> string \<Rightarrow> jsv \<Rightarrow> jsv" where
  "resolved_opts parentOptions k opts =
     (if jget parentOptions k \<noteq> JUndefined then jget parentOptions k else opts)"

text \<open>
  The constructor, \<^verbatim>\<open>addChild\<close>, \<^verbatim>\<open>initChildren\<close> with its local function \<^verbatim>\<open>handleAdd\<close> and
  its loop. The constructor builds the children its options declare, which build theirs,
  so the functions take fuel, spent at each construction. No object of the model has the
  methods \<^verbatim>\<open>play\<close> or \<^verbatim>\<open>reportUserActivity\<close>: the constructor stores the player it is
  given and \<^verbatim>\<open>enableTouchActivity\<close> returns at once. Options are values: the two writes
  into an options object (\<^verbatim>\<open>opts.playerOptions\<close>, \<^verbatim>\<open>options.name\<close>) reach the constructor of
  the child and not the parent's own copy. In strict mode a write to a property of a
  primitive throws.
\<close>

definition construct_init :: "jsv \<Rightarrow> ref option \<Rightarrow> jsv \<Rightarrow> state \<Rightarrow> error + (ref \<times> jsv) \<times> state" where
  "construct_init proto player options s =
     (let opts = mergeOptions (mergeOptions (JObj []) proto) options;
          this = next_ref s
      in bindE (resolve_id opts player s) (\<lambda>(i, sa).
         bindE (resolve_name opts) (\<lambda>nm.
         bindE (resolve_el opts sa) (\<lambda>(el, sb).
           Inr ((this, opts),
                sb\<lparr>objs := (objs sb)(this :=
                      \<lparr>methods = all_methods, c_id = i, c_name = nm, c_el = el, c_contentEl = None,
                       c_children = Some [], c_childIndex = Some (\<lambda>k. Undefined),
                       c_childNameIndex = Some (\<lambda>k. Undefined), c_isReady = False,
                       c_readyQueue = None, c_options = opts, c_player = player,
                       c_named = (\<lambda>k. None)\<rparr>),
                    next_ref := Suc this\<rparr>)))))"

text \<open>
  \<^verbatim>\<open>addChild\<close> with a name, up to the construction: the options after the two coercions
  (\<^verbatim>\<open>if (!options) options = {}\<close> and \<^verbatim>\<open>if (options === true) options = {}\<close>) and with the
  name written into them, and the class the registry gives for the class name.
\<close>

definition child_class :: "env \<Rightarrow> string \<Rightarrow> jsv \<Rightarrow> error + jsv \<times> jsv" where
  "child_class en componentName options =
     (let o1 = (if options = JUndefined then JObj [] else options);
          o2 = (if \<not> truthy o1 then JObj [] else o1);
          o3 = (if o2 = JBool True then JObj [] else o2)
      in case o3 of
           JObj kvs \<Rightarrow>
             bindE (case jget o3 ''componentClass'' of
                      JStr k \<Rightarrow> Inr (if k \<noteq> [] then k else toTitleCase componentName)
                    | v \<Rightarrow> if truthy v then Inl Unsupported else Inr (toTitleCase componentName)) (\<lambda>componentClassName.
             case getComponent en componentClassName of
               None \<Rightarrow> Inl TypeError
             | Some proto \<Rightarrow> Inr (proto, JObj (upd ''name'' (JStr componentName) kvs)))
         | JNum k \<Rightarrow> Inl TypeError
         | JStr k \<Rightarrow> Inl TypeError
         | v \<Rightarrow> Inl Unsupported)"

text \<open>
  \<^verbatim>\<open>handleAdd\<close> up to the call of \<^verbatim>\<open>addChild\<close>: \<open>None\<close> is the early return on
  \<^verbatim>\<open>opts === false\<close>, otherwise the name and the options with \<^verbatim>\<open>playerOptions\<close> written
  into them.
\<close>

definition handle_opts :: "jsv \<Rightarrow> jsv \<Rightarrow> jsv \<Rightarrow> error + (string \<times> jsv) option" where
  "handle_opts parentOptions name opts =
     (case key_of name of
        None \<Rightarrow> Inl Unsupported
      | Some k \<Rightarrow>
          (case resolved_opts parentOptions k opts of
             JBool b \<Rightarrow>
               if \<not> b then Inr None else Inl TypeError
           | JObj kvs \<Rightarrow>
               (case name of
                  JStr nm \<Rightarrow> Inr (Some (nm, JObj (upd ''playerOptions'' (jget parentOptions ''playerOptions'') kvs)))
                | JUndefined \<Rightarrow> Inl TypeError
                | JNull \<Rightarrow> Inl TypeError
                | v \<Rightarrow> Inl Unsupported)
           | JUndefined \<Rightarrow> Inl TypeError
           | JNull \<Rightarrow> Inl TypeError
           | JNum i \<Rightarrow> Inl TypeError
           | JStr i \<Rightarrow> Inl TypeError
           | v \<Rightarrow> Inl Unsupported))"

definition children_entries :: "jsv \<Rightarrow> error + (error + jsv \<times> jsv) list" where
  "children_entries children =
     (if truthy children
      then (case children of
              JArr xs \<Rightarrow> Inr (map array_entry xs)
            | JObj kvs \<Rightarrow> Inr (object_entries kvs)
            | v \<Rightarrow> Inl Unsupported)
      else Inr [])"

definition player_or_self :: "state \<Rightarrow> ref \<Rightarrow> ref" where
  "player_or_self s p = (case c_player (objs s p) of Some pl \<Rightarrow> pl | None \<Rightarrow> p)"

definition set_named :: "ref \<Rightarrow> string \<Rightarrow> ref \<Rightarrow> state \<Rightarrow> state" where
  "set_named p nm component s = set_obj p (\<lambda>ob. ob\<lparr>c_named := (c_named ob)(nm := Some component)\<rparr>) s"

function (sequential) construct :: "nat \<Rightarrow> env \<Rightarrow> jsv \<Rightarrow> ref option \<Rightarrow> jsv \<Rightarrow> nat option \<Rightarrow> state \<Rightarrow> error + ref \<times> state"
  and addChild :: "nat \<Rightarrow> env \<Rightarrow> ref \<Rightarrow> child_arg \<Rightarrow> jsv \<Rightarrow> state \<Rightarrow> error + ref \<times> state"
  and handleAdd :: "nat \<Rightarrow> env \<Rightarrow> ref \<Rightarrow> jsv \<Rightarrow> jsv \<Rightarrow> state \<Rightarrow> error + state"
  and add_entries :: "nat \<Rightarrow> env \<Rightarrow> ref \<Rightarrow> (error + jsv \<times> jsv) list \<Rightarrow> state \<Rightarrow> error + state"
  and initChildren :: "nat \<Rightarrow> env \<Rightarrow> ref \<Rightarrow> state \<Rightarrow> error + state" where
  "construct 0 en proto player options rdy s = Inl OutOfFuel"
| "construct (Suc n) en proto player options rdy s =
     bindE (construct_init proto player options s) (\<lambda>r.
     bindE (if jget (snd (fst r)) ''initChildren'' \<noteq> JBool False
            then initChildren n en (fst (fst r)) (snd r) else Inr (snd r)) (\<lambda>s2.
     bindE (ready (fst (fst r)) rdy s2) (\<lambda>s3. Inr (fst (fst r), s3))))"
| "addChild n en p arg options s =
     (case arg of
        Instance component \<Rightarrow> attach p component None s
      | ByName componentName \<Rightarrow>
          bindE (child_class en componentName options) (\<lambda>cl.
          bindE (construct n en (fst cl) (Some (player_or_self s p)) (snd cl) None s) (\<lambda>r.
          attach p (fst r) (Some componentName) (snd r))))"
| "handleAdd n en p name opts s =
     bindE (handle_opts (c_options (objs s p)) name opts) (\<lambda>h.
       case h of
         None \<Rightarrow> Inr s
       | Some a \<Rightarrow>
           bindE (addChild n en p (ByName (fst a)) (snd a) s) (\<lambda>r.
           Inr (set_named p (fst a) (fst r) (snd r))))"
| "add_entries n en p [] s = Inr s"
| "add_entries n en p (entry # rest) s =
     (case entry of
        Inl e \<Rightarrow> Inl e
      | Inr a \<Rightarrow> bindE (handleAdd n en p (fst a) (snd a) s) (add_entries n en p rest))"
| "initChildren n en p s =
     bindE (children_entries (jget (c_options (objs s p)) ''children'')) (\<lambda>es. add_entries n en p es s)"
  by pat_completeness auto
termination
  by (relation "measures
        [\<lambda>x. case x of
               Inl (Inl (n, _)) \<Rightarrow> 5 * n
             | Inl (Inr (n, _)) \<Rightarrow> 5 * n + 1
             | Inr (Inl (n, _)) \<Rightarrow> 5 * n + 2
             | Inr (Inr (Inl (n, _))) \<Rightarrow> 5 * n + 3
             | Inr (Inr (Inr (n, _))) \<Rightarrow> 5 * n + 4,
         \<lambda>x. case x of
               Inr (Inr (Inl (n, en, p, es, s))) \<Rightarrow> length es
             | _ \<Rightarrow> 0]") auto

subsection \<open>A start state\<close>

definition blank_obj :: obj where
  "blank_obj = \<lparr>methods = {}, c_id = [], c_name = None, c_el = None, c_contentEl = None,
                 c_children = None, c_childIndex = None, c_childNameIndex = None, c_isReady = False,
                 c_readyQueue = None, c_options = JUndefined, c_player = None, c_named = (\<lambda>k. None)\<rparr>"

definition blank_elem :: elem where
  "blank_elem = \<lparr>eid = [], parentNode = None, handlers = (\<lambda>t. [])\<rparr>"

definition init_state :: state where
  "init_state = \<lparr>objs = (\<lambda>r. blank_obj), elems = (\<lambda>e. blank_elem), timers = (\<lambda>i. None), trace = [],
                  next_ref = 0, next_el = 0, next_guid = 1, next_timer = 1\<rparr>"

definition env0 :: env where
  "env0 = \<lparr>components = (\<lambda>k. if k = ''Component'' \<or> k = ''X'' \<or> k = ''A'' \<or> k = ''B'' \<or> k = ''C''
                               then Some JUndefined else None),
            legacy = (\<lambda>k. None)\<rparr>"

section \<open>The tap recognizer\<close>

text \<open>
  \<^verbatim>\<open>emitTapEvents()\<close> declares three variables and registers five listeners that share
  them. The variables are the record \<open>tap_state\<close> (\<^verbatim>\<open>couldBeTap\<close> starts undefined:
  \<open>None\<close>); each listener is a function on it. A touch event carries its list of touches;
  the clock the listeners read (\<^verbatim>\<open>new Date().getTime()\<close>, in milliseconds) is given with
  the event. Coordinates are real numbers (rounding of floating-point arithmetic is not
  modelled). What \<^verbatim>\<open>touchend\<close> does to the outside is the list of its outputs.
\<close>

record touch =
  pageX :: real
  pageY :: real

record tap_state =
  touchStart :: int
  firstTouch :: "touch option"
  couldBeTap :: "bool option"

datatype touch_event =
    TouchStart "touch list" int
  | TouchMove "touch list"
  | TouchLeave
  | TouchCancel
  | TouchEnd int

datatype tap_out = PreventDefault | TriggerTap

definition tapMovementThreshold :: real where
  "tapMovementThreshold = 10"

definition touchTimeThreshold :: int where
  "touchTimeThreshold = 200"

definition emitTapEvents :: tap_state where
  "emitTapEvents = \<lparr>touchStart = 0, firstTouch = None, couldBeTap = None\<rparr>"

definition on_touchstart :: "touch list \<Rightarrow> int \<Rightarrow> tap_state \<Rightarrow> error + tap_state" where
  "on_touchstart touches now st =
     (case touches of
        [t] \<Rightarrow> Inr (st\<lparr>firstTouch := Some t, touchStart := now, couldBeTap := Some True\<rparr>)
      | _ \<Rightarrow> Inr st)"

definition touchDistance :: "touch \<Rightarrow> touch \<Rightarrow> real" where
  "touchDistance t f =
     (let xdiff = pageX t - pageX f; ydiff = pageY t - pageY f
      in sqrt (xdiff * xdiff + ydiff * ydiff))"

definition on_touchmove :: "touch list \<Rightarrow> tap_state \<Rightarrow> error + tap_state" where
  "on_touchmove touches st =
     (if length touches > 1 then Inr (st\<lparr>couldBeTap := Some False\<rparr>)
      else (case firstTouch st of
              None \<Rightarrow> Inr st
            | Some f \<Rightarrow>
                (case touches of
                   [] \<Rightarrow> Inl TypeError
                 | t # ts \<Rightarrow>
                     if touchDistance t f > tapMovementThreshold
                     then Inr (st\<lparr>couldBeTap := Some False\<rparr>)
                     else Inr st)))"

definition noTap :: "tap_state \<Rightarrow> error + tap_state" where
  "noTap st = Inr (st\<lparr>couldBeTap := Some False\<rparr>)"

definition on_touchend :: "int \<Rightarrow> tap_state \<Rightarrow> tap_out list \<times> tap_state" where
  "on_touchend now st =
     (if couldBeTap st = Some True \<and> now - touchStart st < touchTimeThreshold
      then [PreventDefault, TriggerTap] else [],
      st\<lparr>firstTouch := None\<rparr>)"

text \<open>Delivering an event to the element runs the listener registered for its type.\<close>

fun deliver :: "touch_event \<Rightarrow> tap_out list \<times> tap_state \<Rightarrow> error + tap_out list \<times> tap_state" where
  "deliver (TouchStart touches now) (out, st) = bindE (on_touchstart touches now st) (\<lambda>st'. Inr (out, st'))"
| "deliver (TouchMove touches) (out, st) = bindE (on_touchmove touches st) (\<lambda>st'. Inr (out, st'))"
| "deliver TouchLeave (out, st) = bindE (noTap st) (\<lambda>st'. Inr (out, st'))"
| "deliver TouchCancel (out, st) = bindE (noTap st) (\<lambda>st'. Inr (out, st'))"
| "deliver (TouchEnd now) (out, st) = Inr (out @ fst (on_touchend now st), snd (on_touchend now st))"

definition deliver_all :: "touch_event list \<Rightarrow> tap_state \<Rightarrow> error + tap_out list \<times> tap_state" where
  "deliver_all evs st = foldE deliver evs ([], st)"

section \<open>Button: localize and controlText\<close>

text \<open>
  \<^verbatim>\<open>localize(string)\<close> of Component reads \<^verbatim>\<open>language()\<close> and \<^verbatim>\<open>languages()\<close> of the player:
  \<open>None\<close> where the player has no such method or it returns a falsy value. A dictionary
  is a map from source strings to translations.
\<close>

record lang_player =
  language :: "string option"
  languages :: "(string \<Rightarrow> (string \<Rightarrow> string option) option) option"

definition translate :: "(string \<Rightarrow> (string \<Rightarrow> string option) option) \<Rightarrow> string \<Rightarrow> string \<Rightarrow> string option" where
  "translate langs code str =
     (case langs code of
        None \<Rightarrow> None
      | Some d \<Rightarrow> (case d str of None \<Rightarrow> None | Some tr \<Rightarrow> if tr \<noteq> [] then Some tr else None))"

definition localize :: "lang_player \<Rightarrow> string \<Rightarrow> string" where
  "localize pl str =
     (case language pl of
        None \<Rightarrow> str
      | Some code \<Rightarrow>
          if code = [] then str
          else (case languages pl of
                  None \<Rightarrow> str
                | Some langs \<Rightarrow>
                    (case translate langs code str of
                       Some tr \<Rightarrow> tr
                     | None \<Rightarrow>
                         (case translate langs (takeWhile (\<lambda>ch. ch \<noteq> CHR ''-'') code) str of
                            Some tr \<Rightarrow> tr
                          | None \<Rightarrow> str))))"

text \<open>
  The fields of Button that \<^verbatim>\<open>controlText\<close> touches: \<^verbatim>\<open>controlText_\<close> (\<open>None\<close> for
  undefined) and the \<^verbatim>\<open>innerHTML\<close> of \<^verbatim>\<open>controlTextEl_\<close> (\<open>None\<close> when \<^verbatim>\<open>createEl\<close> never ran
  and there is no such element).
\<close>

record button =
  b_controlText :: "string option"
  b_controlTextEl :: "string option"

datatype ct_result = Text string | This

definition controlText :: "lang_player \<Rightarrow> string option \<Rightarrow> button \<Rightarrow> error + ct_result \<times> button" where
  "controlText pl text b =
     (let getter = Inr (Text (case b_controlText b of
                                None \<Rightarrow> ''Need Text''
                              | Some t \<Rightarrow> if t \<noteq> [] then t else ''Need Text''), b)
      in case text of
           None \<Rightarrow> getter
         | Some t \<Rightarrow>
             if t = [] then getter
             else (case b_controlTextEl b of
                     None \<Rightarrow> Inl TypeError
                   | Some h \<Rightarrow> Inr (This, b\<lparr>b_controlText := Some t,
                                              b_controlTextEl := Some (localize pl t)\<rparr>)))"

text \<open>
  \<^verbatim>\<open>createEl\<close> of Button, as far as the label goes: the span is created empty and
  \<^verbatim>\<open>this.controlText(this.controlText_)\<close> is called with the value the prototype gives
  (\<open>proto_text\<close>).
\<close>

definition button_createEl :: "lang_player \<Rightarrow> string option \<Rightarrow> error + button" where
  "button_createEl pl proto_text =
     bindE (controlText pl proto_text \<lparr>b_controlText = proto_text, b_controlTextEl = Some []\<rparr>)
       (\<lambda>r. Inr (snd r))"

section \<open>Basic facts\<close>

lemma bindE_simps [simp]:
  "bindE (Inl e) f = Inl e"
  "bindE (Inr x) f = f x"
  by (simp_all add: bindE_def)

lemma bindE_Inr_iff: "bindE m f = Inr y \<longleftrightarrow> (\<exists>x. m = Inr x \<and> f x = Inr y)"
  by (cases m) simp_all

lemma foldE_append: "foldE f (xs @ ys) s = bindE (foldE f xs s) (foldE f ys)"
  by (induction xs arbitrary: s) (auto split: sum.splits)

lemma store_simps [simp]:
  "objs (log ev s) = objs s" "elems (log ev s) = elems s" "timers (log ev s) = timers s"
  "trace (log ev s) = trace s @ [ev]" "next_timer (log ev s) = next_timer s"
  "objs (set_hs e f s) = objs s" "timers (set_hs e f s) = timers s" "trace (set_hs e f s) = trace s"
  "next_timer (set_hs e f s) = next_timer s" "next_ref (set_hs e f s) = next_ref s"
  "objs (set_parent e po s) = objs s" "timers (set_parent e po s) = timers s"
  "trace (set_parent e po s) = trace s" "next_timer (set_parent e po s) = next_timer s"
  "next_ref (set_parent e po s) = next_ref s"
  "elems (set_obj r g s) = elems s" "timers (set_obj r g s) = timers s" "trace (set_obj r g s) = trace s"
  "next_timer (set_obj r g s) = next_timer s" "next_ref (set_obj r g s) = next_ref s"
  "objs (set_obj r g s) = (objs s)(r := g (objs s r))"
  "objs (window_clear i s) = objs s" "elems (window_clear i s) = elems s" "trace (window_clear i s) = trace s"
  "timers (window_clear i s) = (timers s)(i := None)" "next_timer (window_clear i s) = next_timer s"
  by (simp_all add: log_def set_hs_def set_parent_def set_obj_def window_clear_def)

lemma hs_of_simps [simp]:
  "hs_of (log ev s) e t = hs_of s e t"
  "hs_of (set_obj r g s) e t = hs_of s e t"
  "hs_of (window_clear i s) e t = hs_of s e t"
  "hs_of (set_parent e' po s) e t = hs_of s e t"
  "hs_of (set_hs e' f s) e t = (if e = e' then f t else hs_of s e t)"
  by (simp_all add: hs_of_def log_def set_hs_def set_parent_def set_obj_def window_clear_def)

lemma parent_simps [simp]:
  "parentNode (elems (set_hs e' f s) e) = parentNode (elems s e)"
  "parentNode (elems (set_parent e' po s) e) = (if e = e' then po else parentNode (elems s e))"
  by (simp_all add: set_hs_def set_parent_def)

section \<open>The child table\<close>

subsection \<open>The steps of addChild\<close>

lemma push_child_Inr:
  "push_child p c s = Inr s' \<longleftrightarrow>
     (\<exists>cs. c_children (objs s p) = Some cs \<and> s' = set_obj p (\<lambda>ob. ob\<lparr>c_children := Some (cs @ [c])\<rparr>) s)"
  by (auto simp: push_child_def split: option.splits)

lemma step_methods:
  "push_child p c s = Inr s' \<Longrightarrow> methods (objs s' x) = methods (objs s x)"
  "index_by_id p c s = Inr s' \<Longrightarrow> methods (objs s' x) = methods (objs s x)"
  "index_by_name p c nm s = Inr s' \<Longrightarrow> methods (objs s' x) = methods (objs s x)"
  "append_el p c s = Inr s' \<Longrightarrow> methods (objs s' x) = methods (objs s x)"
  by (auto simp: push_child_def index_by_id_def index_by_name_def append_el_def split: option.splits if_splits)

lemma step_children:
  "index_by_id p c s = Inr s' \<Longrightarrow> c_children (objs s' x) = c_children (objs s x)"
  "index_by_name p c nm s = Inr s' \<Longrightarrow> c_children (objs s' x) = c_children (objs s x)"
  "append_el p c s = Inr s' \<Longrightarrow> c_children (objs s' x) = c_children (objs s x)"
  by (auto simp: index_by_id_def index_by_name_def append_el_def split: option.splits if_splits)

lemma attach_Inr:
  "attach p c nm s = Inr (c', s') \<longleftrightarrow>
     c' = c \<and> (\<exists>s1 s2 s3. push_child p c s = Inr s1 \<and> index_by_id p c s1 = Inr s2 \<and>
                 index_by_name p c nm s2 = Inr s3 \<and> append_el p c s3 = Inr s')"
  by (auto simp: attach_def bindE_Inr_iff)

lemma attach_methods: "attach p c nm s = Inr (c', s') \<Longrightarrow> methods (objs s' x) = methods (objs s x)"
  by (auto simp: attach_Inr step_methods)

lemma attach_children:
  "attach p c nm s = Inr (c', s') \<Longrightarrow>
     \<exists>cs. c_children (objs s p) = Some cs \<and> c_children (objs s' p) = Some (cs @ [c])"
  by (auto simp: attach_Inr step_children push_child_Inr)

subsection \<open>removeChild on a child without id or name accessor\<close>

text \<open>
  A parent (object 0, built by the constructor) and a stand-in (object 1) that exposes
  \<^verbatim>\<open>el\<close> and \<^verbatim>\<open>dispose\<close> only.
\<close>

definition duck_state :: state where
  "duck_state =
     (case construct 1 env0 JUndefined None (JObj []) None init_state of
        Inl e \<Rightarrow> init_state
      | Inr r \<Rightarrow> (snd r)\<lparr>objs := (objs (snd r))(1 := blank_obj\<lparr>methods := {M_el, M_dispose}\<rparr>),
                        next_ref := 2\<rparr>)"

text \<open>
  Claim C10. \<^verbatim>\<open>addChild\<close> guards each index update with a type check, so it accepts an
  instance that has no \<^verbatim>\<open>id\<close> or no \<^verbatim>\<open>name\<close> method and appends it to the children;
  \<^verbatim>\<open>removeChild\<close> of that child finds it in the list and then calls \<^verbatim>\<open>component.id()\<close> and
  \<^verbatim>\<open>component.name()\<close> without a check: it throws a TypeError instead of completing the
  removal.
\<close>

theorem removeChild_throws_without_accessor:
  assumes "addChild n en p (Instance c) opts s = Inr (c', s1)"
    and "M_id \<notin> methods (objs s c) \<or> M_name \<notin> methods (objs s c)"
  shows "c' = c \<and> (\<exists>cs. c_children (objs s1 p) = Some (cs @ [c]))
         \<and> removeChild p (Instance c) s1 = Inl TypeError"
proof -
  from assms(1) have a: "attach p c None s = Inr (c', s1)" by simp
  then have c: "c' = c" by (simp add: attach_Inr)
  from attach_methods[OF a] have m: "methods (objs s1 c) = methods (objs s c)" .
  from attach_children[OF a] obtain cs where cs: "c_children (objs s1 p) = Some (cs @ [c])" by auto
  have "remove_found p c (cs @ [c]) s1 = Inl TypeError"
    using assms(2) m
    by (auto simp: remove_found_def unindex_id_def unindex_name_def bindE_def split: option.splits sum.splits)
  then have "removeChild p (Instance c) s1 = Inl TypeError"
    using cs by (simp add: removeChild_def)
  with c cs show ?thesis by simp
qed

theorem removeChild_throws_witness:
  "\<not> isl (addChild 0 env0 0 (Instance 1) JUndefined duck_state)
   \<and> M_id \<notin> methods (objs duck_state 1)
   \<and> removeChild 0 (Instance 1) (snd (projr (addChild 0 env0 0 (Instance 1) JUndefined duck_state)))
       = Inl TypeError"
proof -
  have ok: "\<not> isl (addChild 0 env0 0 (Instance 1) JUndefined duck_state)"
    unfolding duck_state_def by code_simp
  have m: "M_id \<notin> methods (objs duck_state 1)"
    unfolding duck_state_def by code_simp
  have eq: "addChild 0 env0 0 (Instance 1) JUndefined duck_state
            = Inr (fst (projr (addChild 0 env0 0 (Instance 1) JUndefined duck_state)),
                   snd (projr (addChild 0 env0 0 (Instance 1) JUndefined duck_state)))"
    using ok by simp
  from removeChild_throws_without_accessor[OF eq] m ok show ?thesis by blast
qed

section \<open>Claims about the tap recognizer\<close>

text \<open>
  \<^verbatim>\<open>Math.sqrt(xdiff * xdiff + ydiff * ydiff) > tapMovementThreshold\<close> compares the squared
  distance with 100.
\<close>

lemma exceeds_iff:
  "touchDistance t f > tapMovementThreshold \<longleftrightarrow> (pageX t - pageX f)\<^sup>2 + (pageY t - pageY f)\<^sup>2 > 100"
proof -
  have "sqrt x > 10 \<longleftrightarrow> x > 100" for x :: real
  proof -
    have "sqrt 100 = 10" using real_sqrt_abs[of 10] by simp
    then show ?thesis using real_sqrt_less_iff[of 100 x] by simp
  qed
  then show ?thesis by (simp add: touchDistance_def tapMovementThreshold_def Let_def power2_eq_square)
qed

text \<open>
  A gesture is a \<^verbatim>\<open>touchstart\<close> with one touch, events while the finger is down, and a
  \<^verbatim>\<open>touchend\<close>. An event is \<open>near\<close> when it is a \<^verbatim>\<open>touchmove\<close> of one touch within the
  threshold of the start point; it is \<open>cancelling\<close> when it is a \<^verbatim>\<open>touchmove\<close> with more
  than one touch or beyond the threshold, a \<^verbatim>\<open>touchleave\<close> or a \<^verbatim>\<open>touchcancel\<close>.
\<close>

definition near :: "touch \<Rightarrow> touch_event \<Rightarrow> bool" where
  "near f ev = (case ev of TouchMove [t] \<Rightarrow> touchDistance t f \<le> tapMovementThreshold | _ \<Rightarrow> False)"

definition cancelling :: "touch \<Rightarrow> touch_event \<Rightarrow> bool" where
  "cancelling f ev =
     (case ev of
        TouchMove ts \<Rightarrow> length ts > 1 \<or> (\<exists>t. ts = [t] \<and> touchDistance t f > tapMovementThreshold)
      | TouchLeave \<Rightarrow> True
      | TouchCancel \<Rightarrow> True
      | _ \<Rightarrow> False)"

definition moving :: "touch_event \<Rightarrow> bool" where
  "moving ev = (case ev of TouchMove ts \<Rightarrow> ts \<noteq> [] | TouchLeave \<Rightarrow> True | TouchCancel \<Rightarrow> True | _ \<Rightarrow> False)"

lemma near_steps:
  "\<forall>ev \<in> set evs. near f ev \<Longrightarrow> firstTouch st = Some f \<Longrightarrow> foldE deliver evs (out, st) = Inr (out, st)"
proof (induction evs)
  case Nil
  then show ?case by simp
next
  case (Cons ev evs)
  from Cons.prems(1) obtain t where ev: "ev = TouchMove [t]" and d: "touchDistance t f \<le> tapMovementThreshold"
    by (auto simp: near_def split: touch_event.splits list.splits)
  have "deliver ev (out, st) = Inr (out, st)"
    using ev d Cons.prems(2) by (simp add: on_touchmove_def not_less[symmetric])
  with Cons show ?case by simp
qed

text \<open>
  With near moves only, the gesture ends in exactly one tap (and the suppression of the
  click) when it lasted less than 200 ms, and in nothing otherwise.
\<close>

lemma tap_iff_short:
  assumes "\<forall>ev \<in> set moves. near f ev"
  shows "map_sum id fst (deliver_all (TouchStart [f] start # moves @ [TouchEnd fin]) st)
         = Inr (if fin - start < touchTimeThreshold then [PreventDefault, TriggerTap] else [])"
proof -
  let ?st = "st\<lparr>firstTouch := Some f, touchStart := start, couldBeTap := Some True\<rparr>"
  have "foldE deliver moves ([], ?st) = Inr ([], ?st)"
    using assms by (intro near_steps) simp_all
  then show ?thesis
    by (simp add: deliver_all_def on_touchstart_def foldE_append on_touchend_def)
qed

lemma cancelled_steps:
  "\<forall>ev \<in> set evs. moving ev \<Longrightarrow> couldBeTap st = Some False \<Longrightarrow>
     \<exists>st'. foldE deliver evs (out, st) = Inr (out, st') \<and> couldBeTap st' = Some False"
proof (induction evs arbitrary: st)
  case Nil
  then show ?case by simp
next
  case (Cons ev evs)
  from Cons.prems have "\<exists>st1. deliver ev (out, st) = Inr (out, st1) \<and> couldBeTap st1 = Some False"
    by (cases ev) (auto simp: moving_def on_touchmove_def noTap_def split: option.splits list.splits)
  then obtain st1 where 1: "deliver ev (out, st) = Inr (out, st1)" "couldBeTap st1 = Some False" by blast
  from Cons.IH[OF _ 1(2)] Cons.prems(1) 1(1) show ?case by simp
qed

lemma moving_steps:
  "\<forall>ev \<in> set evs. moving ev \<Longrightarrow> ev0 \<in> set evs \<Longrightarrow> cancelling f ev0 \<Longrightarrow> firstTouch st = Some f \<Longrightarrow>
     \<exists>st'. foldE deliver evs (out, st) = Inr (out, st') \<and> couldBeTap st' = Some False"
proof (induction evs arbitrary: st)
  case Nil
  then show ?case by simp
next
  case (Cons ev evs)
  show ?case
  proof (cases "cancelling f ev")
    case True
    with Cons.prems(4) have "\<exists>st1. deliver ev (out, st) = Inr (out, st1) \<and> couldBeTap st1 = Some False"
      by (cases ev) (auto simp: cancelling_def on_touchmove_def noTap_def split: option.splits list.splits)
    then obtain st1 where 1: "deliver ev (out, st) = Inr (out, st1)" "couldBeTap st1 = Some False" by blast
    from cancelled_steps[OF _ 1(2), of evs out] Cons.prems(1) 1(1) show ?thesis by simp
  next
    case False
    with Cons.prems have in_rest: "ev0 \<in> set evs" by auto
    from Cons.prems(1,4) False
    have "\<exists>st1. deliver ev (out, st) = Inr (out, st1) \<and> firstTouch st1 = Some f"
      by (cases ev) (auto simp: moving_def cancelling_def on_touchmove_def noTap_def split: option.splits list.splits)
    then obtain st1 where 1: "deliver ev (out, st) = Inr (out, st1)" "firstTouch st1 = Some f" by blast
    from Cons.IH[OF _ in_rest Cons.prems(3) 1(2)] Cons.prems(1) 1(1) show ?thesis by simp
  qed
qed

text \<open>A cancelling event among the moves: no tap, whatever the duration.\<close>

lemma no_tap_when_cancelled:
  assumes "\<forall>ev \<in> set moves. moving ev" and "ev0 \<in> set moves" and "cancelling f ev0"
  shows "map_sum id fst (deliver_all (TouchStart [f] start # moves @ [TouchEnd fin]) st) = Inr []"
proof -
  let ?st = "st\<lparr>firstTouch := Some f, touchStart := start, couldBeTap := Some True\<rparr>"
  from moving_steps[OF assms, of ?st "[]"] obtain st' where
    "foldE deliver moves ([], ?st) = Inr ([], st')" "couldBeTap st' = Some False" by auto
  then show ?thesis
    by (simp add: deliver_all_def on_touchstart_def foldE_append on_touchend_def)
qed


text \<open>
  Claim C5, at the input where the code departs from it. The claim: a single-touch
  sequence that stays within 10 pixels and ends in under 200 ms yields exactly one tap
  (\<open>tap_iff_short\<close>), and no tap is emitted when the duration reaches 200 ms
  (\<open>tap_iff_short\<close>), when the displacement exceeds the threshold or when a second touch
  point appears (\<open>no_tap_when_cancelled\<close>, for a second touch point that a \<^verbatim>\<open>touchmove\<close>
  reports). A second finger that lands is reported by a \<^verbatim>\<open>touchstart\<close> with two touches;
  the \<^verbatim>\<open>touchstart\<close> listener does nothing for it, \<^verbatim>\<open>couldBeTap\<close> stays true, and the
  \<^verbatim>\<open>touchend\<close> 100 ms after the first touch emits the tap.
\<close>

definition t0 :: touch where
  "t0 = \<lparr>pageX = 100, pageY = 100\<rparr>"

definition t1 :: touch where
  "t1 = \<lparr>pageX = 200, pageY = 150\<rparr>"

theorem second_touch_still_taps:
  "map_sum id fst (deliver_all [TouchStart [t0] 0, TouchStart [t0, t1] 50, TouchEnd 100] emitTapEvents)
   = Inr [PreventDefault, TriggerTap]"
  by (simp add: deliver_all_def emitTapEvents_def on_touchstart_def on_touchend_def touchTimeThreshold_def)

section \<open>Claims about Button\<close>


definition label_button :: button where
  "label_button = \<lparr>b_controlText = None, b_controlTextEl = Some []\<rparr>"

lemma label_button_created: "button_createEl pl None = Inr label_button"
  by (simp add: button_createEl_def controlText_def label_button_def)




section \<open>Claims about addChild and initChildren\<close>






section \<open>What a construction leaves alone\<close>

text \<open>
  The constructor allocates the next free reference and writes only to objects it
  allocates; \<^verbatim>\<open>addChild\<close>, \<^verbatim>\<open>handleAdd\<close> and \<^verbatim>\<open>initChildren\<close> on an allocated parent \<open>p\<close>
  write to \<open>p\<close> and to new objects, and leave the methods, the id and the name of \<open>p\<close> as
  they were.
\<close>

declare addChild.simps [simp del] handleAdd.simps [simp del] initChildren.simps [simp del] construct.simps [simp del] add_entries.simps [simp del]

definition ident :: "obj \<Rightarrow> meth set \<times> string \<times> string option" where
  "ident ob = (methods ob, c_id ob, c_name ob)"

definition extends :: "ref \<Rightarrow> state \<Rightarrow> state \<Rightarrow> bool" where
  "extends p s s' \<longleftrightarrow>
     next_ref s \<le> next_ref s' \<and> (\<forall>r < next_ref s. r \<noteq> p \<longrightarrow> objs s' r = objs s r)
     \<and> ident (objs s' p) = ident (objs s p)"










section \<open>The indexes and the children\<close>



lemma extends_ident: "extends p s s' \<Longrightarrow> r < next_ref s \<Longrightarrow> ident (objs s' r) = ident (objs s r)"
  by (cases "r = p") (auto simp: extends_def)

































subsection \<open>Two concrete states\<close>













section \<open>What listeners and dispose leave alone\<close>

text \<open>
  Running listeners is \<open>quiet\<close>: no object and no parent node changes, listener lists
  and the table of timers only shrink, and the trace grows by calls of user functions
  only. A whole \<^verbatim>\<open>dispose()\<close> is \<open>calmer\<close>: listener lists and timers only shrink, the
  methods of every object stay, and an element reference stays or becomes null.
  \<open>calls_at d\<close> reads from a trace the objects whose \<^verbatim>\<open>dispose()\<close> was entered at call
  depth \<open>d\<close>, in order.
\<close>

definition quiet :: "state \<Rightarrow> state \<Rightarrow> bool" where
  "quiet s s' \<longleftrightarrow>
     objs s' = objs s \<and> (\<forall>e. parentNode (elems s' e) = parentNode (elems s e))
     \<and> (\<forall>e t. set (hs_of s' e t) \<subseteq> set (hs_of s e t))
     \<and> (\<forall>i. timers s i = None \<longrightarrow> timers s' i = None)
     \<and> next_timer s' = next_timer s
     \<and> (\<exists>tr. trace s' = trace s @ tr \<and> (\<forall>ev \<in> set tr. \<exists>f r. ev = EvCall f r))"

definition calmer :: "state \<Rightarrow> state \<Rightarrow> bool" where
  "calmer s s' \<longleftrightarrow>
     (\<forall>e t. set (hs_of s' e t) \<subseteq> set (hs_of s e t))
     \<and> (\<forall>i. timers s i = None \<longrightarrow> timers s' i = None)
     \<and> next_timer s' = next_timer s
     \<and> (\<forall>y. methods (objs s' y) = methods (objs s y))
     \<and> (\<forall>y. c_el (objs s' y) = c_el (objs s y) \<or> c_el (objs s' y) = None)"

lemma quiet_refl: "quiet s s"
  by (simp add: quiet_def)

lemma quiet_trans: "quiet s s1 \<Longrightarrow> quiet s1 s2 \<Longrightarrow> quiet s s2"
  unfolding quiet_def
  apply (elim conjE exE)
  apply (intro conjI)
       apply simp
      apply simp
     apply blast
    apply simp
   apply simp
  subgoal for tr tr'
    by (rule exI[of _ "tr @ tr'"]) auto
  done

lemma quiet_log_call: "quiet s (log (EvCall f r) s)"
  by (simp add: quiet_def)

lemma quiet_calmer: "quiet s s' \<Longrightarrow> calmer s s'"
  by (simp add: quiet_def calmer_def)

lemma calmer_refl: "calmer s s"
  by (simp add: calmer_def)

lemma calmer_trans: "calmer s s1 \<Longrightarrow> calmer s1 s2 \<Longrightarrow> calmer s s2"
  unfolding calmer_def
  apply (elim conjE)
  apply (intro conjI)
      apply blast
     apply simp
    apply simp
   apply simp
  apply metis
  done

lemma events_off_quiet: "events_off eo topt gopt s = Inr s' \<Longrightarrow> quiet s s'"
  by (auto simp: events_off_def quiet_def hs_of_def[symmetric] split: option.splits if_splits)

lemma off_local_quiet: "off_local c topt gopt s = Inr s' \<Longrightarrow> quiet s s'"
  unfolding off_local_def by (rule events_off_quiet)

lemma off_observed_quiet: "off_observed c tg t g s = Inr s' \<Longrightarrow> quiet s s'"
proof (cases tg)
  case (TComp q)
  assume "off_observed c tg t g s = Inr s'"
  with TComp obtain s1 s2 where "off_local c (Some ''dispose'') (Some g) s = Inr s1"
    "off_local q (Some t) (Some g) s1 = Inr s2" "off_local q (Some ''dispose'') (Some g) s2 = Inr s'"
    by (auto simp: off_observed_def bindE_Inr_iff split: if_splits)
  then show ?thesis by (blast intro: quiet_trans off_local_quiet)
next
  case (TElem e)
  assume "off_observed c tg t g s = Inr s'"
  with TElem obtain s1 s2 where "off_local c (Some ''dispose'') (Some g) s = Inr s1"
    "events_off (Some e) (Some t) (Some g) s1 = Inr s2" "events_off (Some e) (Some ''dispose'') (Some g) s2 = Inr s'"
    by (auto simp: off_observed_def bindE_Inr_iff)
  then show ?thesis by (blast intro: quiet_trans off_local_quiet events_off_quiet)
qed

lemma window_clear_quiet: "quiet s (window_clear i s)"
  by (simp add: quiet_def)

lemma clearTimeout_quiet: "clearTimeout c i s = Inr r \<Longrightarrow> quiet s (snd r)"
  unfolding clearTimeout_def
  by (auto simp: bindE_Inr_iff intro: quiet_trans[OF window_clear_quiet] dest!: off_local_quiet)

lemma clearInterval_quiet: "clearInterval c i s = Inr r \<Longrightarrow> quiet s (snd r)"
  unfolding clearInterval_def
  by (auto simp: bindE_Inr_iff intro: quiet_trans[OF window_clear_quiet] dest!: off_local_quiet)

lemma run_handler_quiet: "run_handler h s = Inr s' \<Longrightarrow> quiet s s'"
  unfolding run_handler_def
  by (cases "hfn h")
     (auto simp: bindE_Inr_iff quiet_log_call
           dest: off_observed_quiet off_local_quiet clearTimeout_quiet clearInterval_quiet)

lemma run_handlers_quiet: "foldE run_handler hs s = Inr s' \<Longrightarrow> quiet s s'"
proof (induction hs arbitrary: s)
  case Nil
  then show ?case by (simp add: quiet_refl)
next
  case (Cons h hs)
  then obtain s1 where "run_handler h s = Inr s1" "foldE run_handler hs s1 = Inr s'"
    by (auto split: sum.splits)
  with Cons.IH show ?case by (blast intro: quiet_trans run_handler_quiet)
qed

lemma trigger_Inr:
  "trigger c t b s = Inr s' \<longleftrightarrow>
     (\<exists>e. c_el (objs s c) = Some e \<and> foldE run_handler (hs_of s e t) (log (EvTrigger e t b) s) = Inr s')"
  by (auto simp: trigger_def events_trigger_def split: option.splits)

definition calls_at :: "nat \<Rightarrow> event list \<Rightarrow> ref list" where
  "calls_at d tr = concat (map (\<lambda>ev. case ev of EvDispose d' x \<Rightarrow> if d' = d then [x] else [] | _ \<Rightarrow> []) tr)"

lemma calls_at_simps [simp]:
  "calls_at d [] = []"
  "calls_at d (tr @ tr') = calls_at d tr @ calls_at d tr'"
  "calls_at d (EvDispose d' x # tr) = (if d' = d then x # calls_at d tr else calls_at d tr)"
  "calls_at d (EvTrigger e t b # tr) = calls_at d tr"
  "calls_at d (EvCall f r # tr) = calls_at d tr"
  by (simp_all add: calls_at_def)

lemma calls_at_calls: "\<forall>ev \<in> set tr. \<exists>f r. ev = EvCall f r \<Longrightarrow> calls_at d tr = []"
  by (induction tr) auto

abbreviation child_step :: "nat \<Rightarrow> nat \<Rightarrow> ref \<Rightarrow> state \<Rightarrow> error + state" where
  "child_step k d \<equiv> (\<lambda>ch s'. if M_dispose \<in> methods (objs s' ch) then dispose k (Suc d) ch s' else Inr s')"

definition clear_children :: "ref \<Rightarrow> state \<Rightarrow> state" where
  "clear_children c s = set_obj c (\<lambda>ob. ob\<lparr>c_children := None, c_childIndex := None, c_childNameIndex := None\<rparr>) s"

definition finish :: "ref \<Rightarrow> eref \<Rightarrow> state \<Rightarrow> state" where
  "finish c e s = set_obj c (\<lambda>ob. ob\<lparr>c_el := None\<rparr>) (set_hs e (\<lambda>t. []) (set_parent e None (set_hs e (\<lambda>t. []) (clear_children c s))))"

lemma teardown_Inr:
  "teardown k d c s1 = Inr s' \<longleftrightarrow>
     (\<exists>s2 e. foldE (child_step k d) (case c_children (objs s1 c) of None \<Rightarrow> [] | Some cs \<Rightarrow> rev cs) s1 = Inr s2
        \<and> c_el (objs s2 c) = Some e \<and> s' = finish c e s2)"
  by (cases "c_children (objs s1 c)")
     (auto simp: bindE_Inr_iff off_local_def events_off_def finish_def clear_children_def split: option.splits)

lemma finish_calmer: "c_el (objs s c) = Some e \<Longrightarrow> calmer s (finish c e s)"
  by (auto simp: calmer_def finish_def clear_children_def)

lemma finish_fields:
  "c_children (objs (finish c e s) c) = None" "c_childIndex (objs (finish c e s) c) = None"
  "c_childNameIndex (objs (finish c e s) c) = None" "c_el (objs (finish c e s) c) = None"
  "hs_of (finish c e s) e t = []" "parentNode (elems (finish c e s) e) = None"
  "trace (finish c e s) = trace s"
  by (simp_all add: finish_def clear_children_def)

definition traced :: "nat \<Rightarrow> ref list \<Rightarrow> state \<Rightarrow> state \<Rightarrow> bool" where
  "traced d xs s s' \<longleftrightarrow>
     (\<exists>tr. trace s' = trace s @ tr \<and> calls_at d tr = xs \<and> (\<forall>d' < d. calls_at d' tr = []))"

lemma traced_trans: "traced d xs s s1 \<Longrightarrow> traced d ys s1 s2 \<Longrightarrow> traced d (xs @ ys) s s2"
  unfolding traced_def
  apply (elim exE conjE)
  subgoal for tr tr'
    by (rule exI[of _ "tr @ tr'"]) simp
  done

lemma traced_deeper: "traced (Suc d) xs s s' \<Longrightarrow> \<exists>ys. traced d [] s s'"
  unfolding traced_def by auto

lemma quiet_traced: "quiet s s' \<Longrightarrow> traced d [] s s'"
  unfolding quiet_def traced_def by (auto simp: calls_at_calls)

lemma children_fold:
  assumes IH: "\<And>ch s s'. dispose k (Suc d) ch s = Inr s' \<Longrightarrow> calmer s s' \<and> traced (Suc d) [ch] s s'"
  shows "foldE (child_step k d) chs s = Inr s' \<Longrightarrow>
           calmer s s' \<and> traced (Suc d) (filter (\<lambda>ch. M_dispose \<in> methods (objs s ch)) chs) s s'"
proof (induction chs arbitrary: s)
  case Nil
  then show ?case by (simp add: calmer_refl traced_def)
next
  case (Cons ch chs)
  from Cons.prems obtain s1 where 1: "child_step k d ch s = Inr s1" and 2: "foldE (child_step k d) chs s1 = Inr s'"
    by (auto split: sum.splits)
  have a: "calmer s s1 \<and> traced (Suc d) (if M_dispose \<in> methods (objs s ch) then [ch] else []) s s1"
    using 1 IH[of ch s s1] by (auto simp: calmer_refl traced_def split: if_splits)
  then have m: "\<And>y. methods (objs s1 y) = methods (objs s y)" by (simp add: calmer_def)
  from Cons.IH[OF 2] have b: "calmer s1 s'" "traced (Suc d) (filter (\<lambda>ch. M_dispose \<in> methods (objs s ch)) chs) s1 s'"
    by (simp_all add: m)
  from a b(1) have "calmer s s'" by (blast intro: calmer_trans)
  moreover from a b(2) have "traced (Suc d) (filter (\<lambda>ch. M_dispose \<in> methods (objs s ch)) (ch # chs)) s s'"
    using traced_trans[of "Suc d" "if M_dispose \<in> methods (objs s ch) then [ch] else []" s s1] by auto
  ultimately show ?case by simp
qed

lemma dispose_Suc_Inr:
  assumes "dispose (Suc k) d c s = Inr s'"
  shows "\<exists>e s1 s2 e'. c_el (objs s c) = Some e
        \<and> foldE run_handler (hs_of s e ''dispose'')
              (log (EvTrigger e ''dispose'' (Some False)) (log (EvDispose d c) s)) = Inr s1
        \<and> objs s1 = objs s
        \<and> foldE (child_step k d) (case c_children (objs s c) of None \<Rightarrow> [] | Some cs \<Rightarrow> rev cs) s1 = Inr s2
        \<and> c_el (objs s2 c) = Some e' \<and> s' = finish c e' s2"
proof -
  from assms obtain s1 where t: "trigger c ''dispose'' (Some False) (log (EvDispose d c) s) = Inr s1"
    and td: "teardown k d c s1 = Inr s'"
    by (auto simp add: bindE_Inr_iff simp del: teardown.simps)
  from t obtain e where e: "c_el (objs s c) = Some e"
    and h: "foldE run_handler (hs_of s e ''dispose'')
              (log (EvTrigger e ''dispose'' (Some False)) (log (EvDispose d c) s)) = Inr s1"
    by (auto simp: trigger_Inr)
  from run_handlers_quiet[OF h] have o: "objs s1 = objs s" by (simp add: quiet_def)
  from td obtain s2 e' where
    "foldE (child_step k d) (case c_children (objs s1 c) of None \<Rightarrow> [] | Some cs \<Rightarrow> rev cs) s1 = Inr s2"
    "c_el (objs s2 c) = Some e'" "s' = finish c e' s2"
    unfolding teardown_Inr by blast
  with e h o show ?thesis by auto
qed

lemma dispose_good: "dispose n d c s = Inr s' \<Longrightarrow> calmer s s' \<and> traced d [c] s s'"
proof (induction n arbitrary: d c s s')
  case 0
  then show ?case by simp
next
  case (Suc k)
  from Suc.prems obtain e s1 s2 e' where el: "c_el (objs s c) = Some e"
    and h: "foldE run_handler (hs_of s e ''dispose'')
              (log (EvTrigger e ''dispose'' (Some False)) (log (EvDispose d c) s)) = Inr s1"
    and f: "foldE (child_step k d) (case c_children (objs s c) of None \<Rightarrow> [] | Some cs \<Rightarrow> rev cs) s1 = Inr s2"
    and e': "c_el (objs s2 c) = Some e'" and s': "s' = finish c e' s2"
    using dispose_Suc_Inr[OF Suc.prems] by blast
  let ?s0 = "log (EvTrigger e ''dispose'' (Some False)) (log (EvDispose d c) s)"
  from run_handlers_quiet[OF h] have q: "quiet ?s0 s1" .
  have c0: "calmer s ?s0" by (simp add: calmer_def)
  have t0: "traced d [c] s ?s0" by (simp add: traced_def)
  from children_fold[of k d, OF Suc.IH f] have cf: "calmer s1 s2"
    and tf: "traced (Suc d) (filter (\<lambda>ch. M_dispose \<in> methods (objs s1 ch))
               (case c_children (objs s c) of None \<Rightarrow> [] | Some cs \<Rightarrow> rev cs)) s1 s2" by simp_all
  from traced_deeper[OF tf] have tf': "traced d [] s1 s2" by simp
  have c3: "calmer s2 s'" unfolding s' using e' by (rule finish_calmer)
  have t3: "traced d [] s2 s'" by (simp add: s' traced_def finish_fields)
  have "calmer s s'" using c0 quiet_calmer[OF q] cf c3 by (blast intro: calmer_trans)
  moreover have "traced d [c] s s'"
    using traced_trans[OF traced_trans[OF traced_trans[OF t0 quiet_traced[OF q]] tf'] t3] by simp
  ultimately show ?case by simp
qed

end
